theory Spec2Isabelle
  imports Complex_Main
begin

section \<open>The payments controller of ilp-kit (src/api/actions/send.js)\<close>

text \<open>
  The controller has four request handlers: \<open>getHistory\<close>, \<open>putResource\<close>,
  \<open>quote\<close> and \<open>setup\<close>. Each is a generator that reads the request from its
  context, calls collaborators (\<open>utils\<close>, \<open>spsp\<close>, the \<open>Payment\<close> and
  \<open>User\<close> models, \<open>socket\<close>) and writes the response status and body.

  The embedding passes the state explicitly: the rows of the payments table go in and
  come out, an exception is the \<open>Inl\<close> of a sum, and the calls that reach the ledger,
  the table and the socket are recorded as a list of events in the order the handler
  makes them. Requests are modelled one at a time; the interleaving of two requests
  between their suspension points is outside the model.
\<close>

subsection \<open>Data\<close>

text \<open>A row of the users table; the handlers read \<open>user.id\<close> and \<open>user.username\<close>.\<close>

record user =
  user_id :: nat
  username :: string

text \<open>
  A row of the payments table. Every attribute of the JavaScript object may be absent
  (\<open>undefined\<close> or \<open>null\<close>), which is \<open>None\<close>. Amounts are decimal strings,
  the state is the string the handlers write (\<open>'pending'\<close>, \<open>'success'\<close>).
\<close>

record payment =
  payment_id :: "string option"
  source_user :: "nat option"
  source_account :: "string option"
  destination_user :: "nat option"
  destination_account :: "string option"
  transfer :: "string option"
  state :: "string option"
  source_amount :: "string option"
  destination_amount :: "string option"
  message :: "string option"
  execution_condition :: "string option"

text \<open>
  The object \<open>Payment.createBodyParser()\<close> leaves in \<open>this.body\<close> for
  \<open>putResource\<close>: the handler reads \<open>destination\<close>, \<open>sourceAmount\<close>,
  \<open>destinationAmount\<close> and \<open>message\<close> from it and writes \<open>id\<close> and
  \<open>source_user\<close> into it.
\<close>

record payment_body =
  body_id :: "string option"
  body_source_user :: "nat option"
  destination :: "string option"
  sourceAmount :: "string option"
  destinationAmount :: "string option"
  body_message :: "string option"

datatype dest_type = LOCAL | REMOTE

text \<open>The resolved destination; the handlers read \<open>destination.accountUri\<close>.\<close>

record resolved_destination =
  dest_type :: dest_type
  accountUri :: string
  ledgerHost :: string

text \<open>What \<open>spsp.pay\<close> returns: the handler reads \<open>uuid\<close> and \<open>executionCondition\<close>.\<close>

record executed_transfer =
  uuid :: string
  executionCondition :: string

text \<open>The argument objects of \<open>spsp.pay\<close> and \<open>spsp.quote\<close>.\<close>

record pay_params =
  pay_source :: user
  pay_destination :: resolved_destination
  pay_sourceAmount :: "string option"
  pay_destinationAmount :: "string option"
  pay_memo :: "string option"

record quote_params =
  quote_source :: user
  quote_destination :: resolved_destination
  quote_sourceAmount :: "string option"
  quote_destinationAmount :: "string option"

record quote_result =
  quoted_sourceAmount :: string
  quoted_destinationAmount :: string

text \<open>What \<open>spsp.createRequest\<close> returns: the handler reads \<open>condition\<close>.\<close>

record payment_params =
  condition :: string
  request_amount :: "string option"

text \<open>
  The errors of the specification's taxonomy, the error
  \<open>request.validateUriParameter\<close> throws, and the rejection of a write by the
  unique constraint of the payments table.
\<close>

datatype error =
    InvalidDestinationError
  | DestinationUnreachableError
  | InvalidQuoteRequestError
  | QuoteUnavailableError
  | InvalidLedgerAccountError
  | LedgerInsufficientFundsError
  | UnknownReceiverError
  | InvalidUriParameterError
  | UniqueConstraintError

text \<open>
  The steps a handler takes outside its own frame, in the order it takes them:
  the two phases of the ledger transfer, the write of the payment row
  (\<open>dbPayment.save()\<close>) and the notification (\<open>socket.payment\<close>).
\<close>

datatype event =
    LedgerPrepare
  | LedgerFulfill
  | RecordSave payment
  | SocketPayment string payment

text \<open>
  The collaborators that reach outside the process, taken as parameters: the ledger
  host of the configuration, the grammar of destination identifiers, the discovery
  lookup, the two calls of the ledger, the remote quoting endpoint and the generator of
  execution conditions.
\<close>

record env =
  own_ledgerHost :: string
  grammar :: "string \<Rightarrow> (string \<times> string) option"
  discover :: "string \<Rightarrow> bool"
  ledger_prepare :: "pay_params \<Rightarrow> error + executed_transfer"
  ledger_fulfill :: "executed_transfer \<Rightarrow> error option"
  remote_quote :: "quote_params \<Rightarrow> quote_result option"
  createRequest :: "user \<Rightarrow> string option \<Rightarrow> error + payment_params"

subsection \<open>Collaborators\<close>

text \<open>
  \<open>request.validateUriParameter('id', id, 'Uuid')\<close> of five-bells-shared throws
  unless the value matches the Uuid schema: five groups of 8, 4, 4, 4 and 12
  hexadecimal digits of either case, joined by hyphens.
\<close>

definition is_hex :: "char \<Rightarrow> bool" where
  "is_hex c = (c \<in> set ''0123456789abcdefABCDEF'')"

definition is_uuid :: "string \<Rightarrow> bool" where
  "is_uuid s =
     (length s = 36 \<and>
      list_all (\<lambda>(i, c). if i \<in> {8, 13, 18, 23} then c = CHR ''-'' else is_hex c)
        (enumerate 0 s))"

definition validateUriParameter :: "string \<Rightarrow> error option" where
  "validateUriParameter v = (if is_uuid v then None else Some InvalidUriParameterError)"

text \<open>
  \<open>String.prototype.toLowerCase\<close> on the characters a validated identifier can
  hold: the letters A to Z move to a to z, every other ASCII character stays.
\<close>

definition toLowerCase :: "string \<Rightarrow> string" where
  "toLowerCase s =
     map (\<lambda>c. case map_of (zip ''ABCDEFGHIJKLMNOPQRSTUVWXYZ''
                                ''abcdefghijklmnopqrstuvwxyz'') c of
                 None \<Rightarrow> c
               | Some l \<Rightarrow> l) s"

text \<open>Modelled from the spec: \<open>utils.parseDestination\<close> (lib/utils is not among the
  sources). Section 4.1: the identifier must be non-empty and match the grammar, else
  \<open>InvalidDestinationError\<close>; it is LOCAL when its ledger host is this system's own,
  REMOTE otherwise; a REMOTE receiver is looked up by discovery, whose failure is
  \<open>DestinationUnreachableError\<close>.
\<close>

definition parseDestination :: "env \<Rightarrow> string option \<Rightarrow> error + resolved_destination" where
  "parseDestination env d =
     (case d of
        None \<Rightarrow> Inl InvalidDestinationError
      | Some s \<Rightarrow>
          if s = [] then Inl InvalidDestinationError
          else
            (case grammar env s of
               None \<Rightarrow> Inl InvalidDestinationError
             | Some (uri, host) \<Rightarrow>
                 if host = own_ledgerHost env
                 then Inr \<lparr>dest_type = LOCAL, accountUri = uri, ledgerHost = host\<rparr>
                 else if discover env s
                 then Inr \<lparr>dest_type = REMOTE, accountUri = uri, ledgerHost = host\<rparr>
                 else Inl DestinationUnreachableError))"

text \<open>Modelled from the spec: \<open>spsp.quote\<close> (lib/spsp is not among the sources).
  Section 4.2: exactly one of the two amounts must be supplied, else
  \<open>InvalidQuoteRequestError\<close>; for a LOCAL destination the other amount is the same;
  for a REMOTE destination it comes from the destination's quoting endpoint, and
  \<open>QuoteUnavailableError\<close> when that gives no answer.
\<close>

definition spsp_quote :: "env \<Rightarrow> quote_params \<Rightarrow> error + quote_result" where
  "spsp_quote env q =
     (case (quote_sourceAmount q, quote_destinationAmount q) of
        (Some a, None) \<Rightarrow>
          if dest_type (quote_destination q) = LOCAL
          then Inr \<lparr>quoted_sourceAmount = a, quoted_destinationAmount = a\<rparr>
          else (case remote_quote env q of
                  None \<Rightarrow> Inl QuoteUnavailableError
                | Some r \<Rightarrow> Inr r)
      | (None, Some a) \<Rightarrow>
          if dest_type (quote_destination q) = LOCAL
          then Inr \<lparr>quoted_sourceAmount = a, quoted_destinationAmount = a\<rparr>
          else (case remote_quote env q of
                  None \<Rightarrow> Inl QuoteUnavailableError
                | Some r \<Rightarrow> Inr r)
      | _ \<Rightarrow> Inl InvalidQuoteRequestError)"

text \<open>Modelled from the spec: \<open>spsp.pay\<close> (lib/spsp is not among the sources).
  Section 4.3: the transfer is prepared on the ledger under its execution condition,
  where insufficient funds and an unknown account fail and leave nothing behind, and is
  then fulfilled. For a LOCAL destination hold and release are one ledger call; for a
  REMOTE one the fulfilment is a second step that can fail after the prepare. The
  events are the steps that completed.
\<close>

definition spsp_pay :: "env \<Rightarrow> pay_params \<Rightarrow> (error + executed_transfer) \<times> event list" where
  "spsp_pay env p =
     (case ledger_prepare env p of
        Inl e \<Rightarrow> (Inl e, [])
      | Inr t \<Rightarrow>
          if dest_type (pay_destination p) = LOCAL
          then (Inr t, [LedgerPrepare, LedgerFulfill])
          else (case ledger_fulfill env t of
                  Some e \<Rightarrow> (Inl e, [LedgerPrepare])
                | None \<Rightarrow> (Inr t, [LedgerPrepare, LedgerFulfill])))"

subsection \<open>The Payment and User models\<close>

text \<open>\<open>new Payment()\<close>: an object with no attribute set.\<close>

definition new_Payment :: payment where
  "new_Payment =
     \<lparr>payment_id = None, source_user = None, source_account = None,
      destination_user = None, destination_account = None, transfer = None,
      state = None, source_amount = None, destination_amount = None,
      message = None, execution_condition = None\<rparr>"

text \<open>Modelled from the spec: the merge of one attribute in \<open>setDataExternal\<close>
  (models/payment is not among the sources). Sections 3 and 8: the caller submits a set
  of fields and the row is updated in place, a merge: an attribute the data gives a
  value takes it, an attribute the data leaves out or leaves undefined keeps what the
  object had.
\<close>

definition merge_field :: "'a option \<Rightarrow> 'a option \<Rightarrow> 'a option" where
  "merge_field old new = (case new of None \<Rightarrow> old | Some v \<Rightarrow> Some v)"

text \<open>Modelled from the spec: \<open>setDataExternal\<close> (models/payment is not among the
  sources), the merge of section 8 attribute by attribute.
\<close>

definition setDataExternal :: "payment \<Rightarrow> payment \<Rightarrow> payment" where
  "setDataExternal p d =
     \<lparr>payment_id = merge_field (payment_id p) (payment_id d),
      source_user = merge_field (source_user p) (source_user d),
      source_account = merge_field (source_account p) (source_account d),
      destination_user = merge_field (destination_user p) (destination_user d),
      destination_account = merge_field (destination_account p) (destination_account d),
      transfer = merge_field (transfer p) (transfer d),
      state = merge_field (state p) (state d),
      source_amount = merge_field (source_amount p) (source_amount d),
      destination_amount = merge_field (destination_amount p) (destination_amount d),
      message = merge_field (message p) (message d),
      execution_condition = merge_field (execution_condition p) (execution_condition d)\<rparr>"

text \<open>
  The payments table is the list of its rows in insertion order. A model object is the
  position of the row it was loaded from (\<open>None\<close> for an object made by
  \<open>new Payment()\<close>) and its attributes.
\<close>

definition has_condition :: "string \<Rightarrow> payment \<Rightarrow> bool" where
  "has_condition c r = (execution_condition r = Some c)"

text \<open>Modelled from the spec: \<open>Payment.findOne\<close> by execution condition
  (models/payment is not among the sources). Sections 4.3 and 6: the lookup of an
  existing payment with the condition; of several it gives the first.
\<close>

definition Payment_findOne :: "payment list \<Rightarrow> string \<Rightarrow> (nat \<times> payment) option" where
  "Payment_findOne rows c =
     (let i = length (takeWhile (\<lambda>r. \<not> has_condition c r) rows)
      in if i < length rows then Some (i, rows ! i) else None)"

text \<open>Modelled from the spec: the unique constraint of the payments table
  (models/payment is not among the sources). Sections 4.4 and 6: the execution
  condition is a unique column; a write is in conflict when another row than the one
  written (at \<open>pos\<close>) has the condition of the payment.
\<close>

definition violates_unique :: "payment list \<Rightarrow> nat option \<Rightarrow> payment \<Rightarrow> bool" where
  "violates_unique rows pos p =
     (case execution_condition p of
        None \<Rightarrow> False
      | Some c \<Rightarrow> list_ex (\<lambda>(i, r). Some i \<noteq> pos \<and> has_condition c r) (enumerate 0 rows))"

text \<open>Modelled from the spec: \<open>payment.create()\<close> (models/payment is not among the
  sources). Section 4.4: an insert, rejected when it would give two rows one condition.
\<close>

definition Payment_create :: "payment list \<Rightarrow> payment \<Rightarrow> error + payment list" where
  "Payment_create rows p =
     (if violates_unique rows None p then Inl UniqueConstraintError else Inr (rows @ [p]))"

text \<open>Modelled from the spec: \<open>payment.save()\<close> (models/payment is not among the
  sources). Sections 4.3 and 4.4: an object loaded from a row updates that row in place,
  an object never loaded is inserted; either is rejected when it would give two rows one
  condition.
\<close>

definition Payment_save :: "payment list \<Rightarrow> nat option \<times> payment \<Rightarrow> error + payment list" where
  "Payment_save rows m =
     (case fst m of
        None \<Rightarrow> Payment_create rows (snd m)
      | Some i \<Rightarrow>
          if violates_unique rows (Some i) (snd m) then Inl UniqueConstraintError
          else Inr (rows[i := snd m]))"

text \<open>Modelled from the spec: \<open>User.findOne\<close> by username (models/user is not among the
  sources): the first row of the users table with that name, if any.
\<close>

definition User_findOne :: "user list \<Rightarrow> string \<Rightarrow> user option" where
  "User_findOne users name = find (\<lambda>u. username u = name) users"

subsection \<open>Numbers\<close>

text \<open>
  A JavaScript Number is an IEEE 754 double: \<open>NaN\<close>, an infinity, or a sign with
  a magnitude; the sign is \<open>True\<close> for a negative number, so that \<open>-0\<close> is
  \<open>Finite True 0\<close>. A result of an operation is a double: the exact magnitude
  is rounded to the nearest multiple of the unit of its binade (53 significant bits,
  the unit of the subnormal numbers below 2^-1022), a tie goes to the even multiple,
  and a magnitude that rounds to 2^1024 or more overflows to the infinity.
\<close>

datatype number = NaN | Infinite bool | Finite bool rat











subsection \<open>getHistory (lines 98 to 108)\<close>

text \<open>
  The request: \<open>this.req.user\<close> and the two query parameters. \<open>this.query.page\<close>
  and \<open>this.query.limit\<close> are strings, or undefined when the query leaves them out;
  the division of line 106 coerces the limit to a Number, and the request holds the
  Numbers the two parameters coerce to: \<open>NaN\<close> for a parameter that is absent or not
  numeric, the infinity for a numeral of 2^1024 or more (such as a 1 with 309 zeros).
\<close>

record history_request =
  history_user :: user
  query_page :: number
  query_limit :: number



subsection \<open>putResource (lines 140 to 192)\<close>

text \<open>
  The request: \<open>this.params.id\<close>, \<open>this.req.user\<close> and the parsed body. The
  result: the status the handler sets with the body object as the handler leaves it
  (or the exception thrown), the rows of the table afterwards, and the events.
  \<open>dbPayment.save()\<close> is called without \<open>yield\<close>: a rejection of the write
  is not seen by the handler and leaves the table as it was.
\<close>

record put_request =
  params_id :: string
  req_user :: user
  request_body :: payment_body

record put_response =
  put_status :: nat
  put_body :: payment_body

text \<open>The object literal the handler passes to \<open>dbPayment.setDataExternal\<close>.\<close>

definition executed_fields ::
  "user \<Rightarrow> payment_body \<Rightarrow> resolved_destination \<Rightarrow> executed_transfer \<Rightarrow> payment" where
  "executed_fields u payment dest tr =
     new_Payment
       \<lparr>source_user := Some (user_id u),
        destination_account := Some (accountUri dest),
        source_amount := sourceAmount payment,
        destination_amount := destinationAmount payment,
        transfer := Some (uuid tr),
        message := body_message payment,
        execution_condition := Some (executionCondition tr),
        state := Some ''success''\<rparr>"

definition putResource ::
  "env \<Rightarrow> payment list \<Rightarrow> put_request \<Rightarrow> (error + put_response) \<times> payment list \<times> event list" where
  "putResource env rows req =
     (case validateUriParameter (params_id req) of
        Some e \<Rightarrow> (Inl e, rows, [])
      | None \<Rightarrow>
          let id' = toLowerCase (params_id req);
              payment = (request_body req)
                \<lparr>body_id := Some id', body_source_user := Some (user_id (req_user req))\<rparr>
          in case parseDestination env (destination payment) of
               Inl e \<Rightarrow> (Inl e, rows, [])
             | Inr dest \<Rightarrow>
                 (case spsp_pay env
                         \<lparr>pay_source = req_user req, pay_destination = dest,
                          pay_sourceAmount = sourceAmount payment,
                          pay_destinationAmount = destinationAmount payment,
                          pay_memo = body_message payment\<rparr> of
                    (Inl e, evs) \<Rightarrow> (Inl e, rows, evs)
                  | (Inr tr, evs) \<Rightarrow>
                      let found = Payment_findOne rows (executionCondition tr);
                          pos = map_option fst found;
                          dbPayment = (case found of None \<Rightarrow> new_Payment | Some (i, r) \<Rightarrow> r);
                          dbPayment = setDataExternal dbPayment
                                        (executed_fields (req_user req) payment dest tr);
                          rows' = (case Payment_save rows (pos, dbPayment) of
                                     Inl e \<Rightarrow> rows
                                   | Inr saved \<Rightarrow> saved)
                      in (Inr \<lparr>put_status = 200, put_body = payment\<rparr>, rows',
                          evs @ [RecordSave dbPayment,
                                 SocketPayment (username (req_user req)) dbPayment])))"

subsection \<open>quote (lines 223 to 234)\<close>

text \<open>The request: \<open>this.req.user\<close> and the three attributes read from the body.\<close>

record quote_request =
  q_user :: user
  q_destination :: "string option"
  q_source_amount :: "string option"
  q_destination_amount :: "string option"

definition quote :: "env \<Rightarrow> quote_request \<Rightarrow> error + quote_result" where
  "quote env req =
     (case parseDestination env (q_destination req) of
        Inl e \<Rightarrow> Inl e
      | Inr dest \<Rightarrow>
          spsp_quote env
            \<lparr>quote_source = q_user req, quote_destination = dest,
             quote_sourceAmount = q_source_amount req,
             quote_destinationAmount = q_destination_amount req\<rparr>)"

subsection \<open>The request set-up of a receiver (lines 236 to 274)\<close>

text \<open>
  The handler of \<open>POST /receivers/:username\<close>. The request:
  \<open>this.params.username\<close> and the three attributes read from the body. The
  response holds what the handler assigns: \<open>this.status\<close> and \<open>this.body\<close>,
  \<open>None\<close> when it assigns nothing. An exception of \<open>payment.create()\<close> is caught
  and logged; one of \<open>spsp.createRequest\<close> is not caught.
\<close>

record setup_request =
  params_username :: string
  sender_identifier :: "string option"
  memo :: "string option"
  amount :: "string option"

record setup_response =
  setup_status :: "nat option"
  setup_body :: "payment_params option"

text \<open>The object literal \<open>paymentObj\<close> the handler builds for the pending row.\<close>

definition paymentObj :: "setup_request \<Rightarrow> user \<Rightarrow> payment_params \<Rightarrow> payment" where
  "paymentObj req destinationUser paymentParams =
     new_Payment
       \<lparr>state := Some ''pending'',
        source_account := sender_identifier req,
        destination_user := Some (user_id destinationUser),
        destination_amount := amount req,
        message := memo req,
        execution_condition := Some (condition paymentParams)\<rparr>"

definition setup_receiver ::
  "env \<Rightarrow> user list \<Rightarrow> payment list \<Rightarrow> setup_request \<Rightarrow> (error + setup_response) \<times> payment list" where
  "setup_receiver env users rows req =
     (case User_findOne users (params_username req) of
        None \<Rightarrow> (Inr \<lparr>setup_status = Some 404, setup_body = None\<rparr>, rows)
      | Some destinationUser \<Rightarrow>
          (case createRequest env destinationUser (amount req) of
             Inl e \<Rightarrow> (Inl e, rows)
           | Inr paymentParams \<Rightarrow>
               let payment = setDataExternal new_Payment
                               (paymentObj req destinationUser paymentParams)
               in case Payment_create rows payment of
                    Inr rows' \<Rightarrow>
                      (Inr \<lparr>setup_status = None, setup_body = Some paymentParams\<rparr>, rows')
                  | Inl e \<Rightarrow>
                      (Inr \<lparr>setup_status = None, setup_body = None\<rparr>, rows)))"

subsection \<open>The router (lines 35 to 41)\<close>

text \<open>
  \<open>init\<close> binds the four routes to the four handlers. A served request leaves the
  table and the events of its handler; \<open>serve\<close> is a sequence of requests, one
  after the other, each with the outside world it meets.
\<close>

datatype request =
    GetPayments history_request
  | PostQuote quote_request
  | PutPayment put_request
  | PostReceiver setup_request

fun route :: "user list \<Rightarrow> payment list \<Rightarrow> env \<times> request \<Rightarrow> payment list \<times> event list" where
  "route users rows (env, GetPayments req) = (rows, [])"
| "route users rows (env, PostQuote req) = (rows, [])"
| "route users rows (env, PutPayment req) = snd (putResource env rows req)"
| "route users rows (env, PostReceiver req) = (snd (setup_receiver env users rows req), [])"

fun serve :: "user list \<Rightarrow> (env \<times> request) list \<Rightarrow> payment list \<Rightarrow> payment list \<times> event list" where
  "serve users [] rows = (rows, [])"
| "serve users (r # rs) rows =
     (let (rows', evs) = route users rows r;
          (rows'', evs') = serve users rs rows'
      in (rows'', evs @ evs'))"

subsection \<open>Properties of tables and event lists\<close>

text \<open>The execution conditions of the rows of a table, and the unique constraint.\<close>

definition conditions :: "payment list \<Rightarrow> string list" where
  "conditions rows = map the (filter (\<lambda>x. x \<noteq> None) (map execution_condition rows))"

definition unique_conditions :: "payment list \<Rightarrow> bool" where
  "unique_conditions rows = distinct (conditions rows)"

text \<open>
  The kind of step an event is, and \<open>precedes a b\<close>: no step \<open>b\<close> is taken unless
  a step \<open>a\<close> was taken before it.
\<close>

datatype step = Prepare | Fulfill | Upsert | Publish

fun step_of :: "event \<Rightarrow> step" where
  "step_of LedgerPrepare = Prepare"
| "step_of LedgerFulfill = Fulfill"
| "step_of (RecordSave p) = Upsert"
| "step_of (SocketPayment u p) = Publish"

fun precedes :: "step \<Rightarrow> step \<Rightarrow> step list \<Rightarrow> bool" where
  "precedes a b [] = True"
| "precedes a b (s # ss) = (if s = a then True else if s = b then False else precedes a b ss)"

subsection \<open>A wallet\<close>

text \<open>
  A concrete outside world, used to run the handlers: the ledger host is
  \<open>wallet.example\<close>, \<open>bob@wallet.example\<close> is a local account and
  \<open>carol@other.example\<close> a remote one, the ledger accepts every transfer under the
  condition \<open>cc:0:3:C\<close>, and the receiver's generator issues that condition.
\<close>

definition wallet :: env where
  "wallet =
     \<lparr>own_ledgerHost = ''wallet.example'',
      grammar = (\<lambda>s.
        if s = ''bob@wallet.example''
        then Some (''https://wallet.example/ledger/accounts/bob'', ''wallet.example'')
        else if s = ''carol@other.example''
        then Some (''https://other.example/ledger/accounts/carol'', ''other.example'')
        else None),
      discover = (\<lambda>s. True),
      ledger_prepare = (\<lambda>p. Inr \<lparr>uuid = ''3d4c9c8e-204a-4213-9e91-88b64dad8604'',
                                   executionCondition = ''cc:0:3:C''\<rparr>),
      ledger_fulfill = (\<lambda>t. None),
      remote_quote = (\<lambda>q. None),
      createRequest = (\<lambda>u a. Inr \<lparr>condition = ''cc:0:3:C'', request_amount = a\<rparr>)\<rparr>"

definition alice :: user where
  "alice = \<lparr>user_id = 1, username = ''alice''\<rparr>"

definition bob :: user where
  "bob = \<lparr>user_id = 2, username = ''bob''\<rparr>"

definition alice_pays_bob :: put_request where
  "alice_pays_bob =
     \<lparr>params_id = ''9EFA70EC-08B9-11E6-B512-3E1D05DEFE78'',
      req_user = alice,
      request_body =
        \<lparr>body_id = None, body_source_user = Some 7,
         destination = Some ''bob@wallet.example'',
         sourceAmount = None, destinationAmount = Some ''1'',
         body_message = Some ''hi''\<rparr>\<rparr>"

definition bob_requests :: setup_request where
  "bob_requests =
     \<lparr>params_username = ''bob'',
      sender_identifier = Some ''alice@wallet.example'',
      memo = Some ''invoice 42'',
      amount = Some ''1''\<rparr>"

text \<open>
  The row the receiver's request leaves in an empty table, the row after alice has paid
  it, and the events of that payment.
\<close>

definition pending_row :: payment where
  "pending_row =
     \<lparr>payment_id = None, source_user = None,
      source_account = Some ''alice@wallet.example'',
      destination_user = Some 2, destination_account = None,
      transfer = None, state = Some ''pending'', source_amount = None,
      destination_amount = Some ''1'', message = Some ''invoice 42'',
      execution_condition = Some ''cc:0:3:C''\<rparr>"

definition paid_row :: payment where
  "paid_row =
     \<lparr>payment_id = None, source_user = Some 1,
      source_account = Some ''alice@wallet.example'',
      destination_user = Some 2,
      destination_account = Some ''https://wallet.example/ledger/accounts/bob'',
      transfer = Some ''3d4c9c8e-204a-4213-9e91-88b64dad8604'',
      state = Some ''success'', source_amount = None,
      destination_amount = Some ''1'', message = Some ''hi'',
      execution_condition = Some ''cc:0:3:C''\<rparr>"

definition paid_events :: "event list" where
  "paid_events =
     [LedgerPrepare, LedgerFulfill, RecordSave paid_row, SocketPayment ''alice'' paid_row]"

text \<open>
  Rows another writer could have left under the same condition: one in state
  \<open>failed\<close>, and a pending one that already has an id.
\<close>

definition failed_row :: payment where
  "failed_row = pending_row\<lparr>state := Some ''failed''\<rparr>"

definition identified_row :: payment where
  "identified_row = pending_row\<lparr>payment_id := Some ''e1d3c588-807c-4d4f-b25c-61842b5ead6d''\<rparr>"

text \<open>Quote requests for a local destination: with one amount, and with neither.\<close>

definition quote_for_bob :: quote_request where
  "quote_for_bob =
     \<lparr>q_user = alice, q_destination = Some ''bob@wallet.example'',
      q_source_amount = None, q_destination_amount = Some ''10''\<rparr>"

definition quote_neither_amount :: quote_request where
  "quote_neither_amount =
     \<lparr>q_user = alice, q_destination = Some ''bob@wallet.example'',
      q_source_amount = None, q_destination_amount = None\<rparr>"

text \<open>
  A request for a receiver the users table does not have, and reads of the history: the
  second page of two rows, a read with no parameters, and one whose limit is infinite.
\<close>

definition dave_requests :: setup_request where
  "dave_requests = bob_requests\<lparr>params_username := ''dave''\<rparr>"




text \<open>
  The body object \<open>putResource\<close> leaves behind and the object it saves, as
  functions of the request, the resolved destination and the executed transfer.
\<close>

definition body_after :: "put_request \<Rightarrow> payment_body" where
  "body_after req =
     (request_body req)
       \<lparr>body_id := Some (toLowerCase (params_id req)),
        body_source_user := Some (user_id (req_user req))\<rparr>"

definition stored_payment ::
  "payment list \<Rightarrow> put_request \<Rightarrow> resolved_destination \<Rightarrow> executed_transfer \<Rightarrow> payment" where
  "stored_payment rows req dest tr =
     setDataExternal
       (case Payment_findOne rows (executionCondition tr) of
          None \<Rightarrow> new_Payment
        | Some (i, r) \<Rightarrow> r)
       (executed_fields (req_user req) (body_after req) dest tr)"

definition pay_request :: "put_request \<Rightarrow> resolved_destination \<Rightarrow> pay_params" where
  "pay_request req dest =
     \<lparr>pay_source = req_user req, pay_destination = dest,
      pay_sourceAmount = sourceAmount (request_body req),
      pay_destinationAmount = destinationAmount (request_body req),
      pay_memo = body_message (request_body req)\<rparr>"

section \<open>Lemmas\<close>

subsection \<open>The table\<close>

lemma conditions_snoc:
  "execution_condition p = Some c \<Longrightarrow> conditions (rows @ [p]) = conditions rows @ [c]"
  by (simp add: conditions_def)

lemma conditions_Cons:
  "conditions (r # rows) =
     (case execution_condition r of None \<Rightarrow> conditions rows | Some c \<Rightarrow> c # conditions rows)"
  by (simp add: conditions_def split: option.splits)

lemma set_conditions: "c \<in> set (conditions rows) \<longleftrightarrow> (\<exists>r\<in>set rows. has_condition c r)"
  by (force simp: conditions_def has_condition_def image_iff)

lemma nth_condition_mem:
  "j < length rows \<Longrightarrow> has_condition c (rows ! j) \<Longrightarrow> c \<in> set (conditions rows)"
  unfolding set_conditions using nth_mem by blast

lemma findOne_None: "Payment_findOne rows c = None \<longleftrightarrow> c \<notin> set (conditions rows)"
proof -
  have "length (takeWhile (\<lambda>r. \<not> has_condition c r) rows) = length rows \<longleftrightarrow>
        (\<forall>r\<in>set rows. \<not> has_condition c r)"
    by (metis takeWhile_eq_all_conv takeWhile_eq_take take_all_iff order_refl)
  moreover have "length (takeWhile (\<lambda>r. \<not> has_condition c r) rows) \<le> length rows"
    by (rule length_takeWhile_le)
  ultimately show ?thesis
    by (auto simp: Payment_findOne_def Let_def set_conditions)
qed

lemma findOne_Some:
  assumes "Payment_findOne rows c = Some (i, r)"
  shows "i < length rows \<and> r = rows ! i \<and> has_condition c r"
  using assms nth_length_takeWhile[of "\<lambda>r. \<not> has_condition c r" rows]
  by (auto simp: Payment_findOne_def Let_def split: if_splits)

lemma findOne_snoc:
  assumes "c \<notin> set (conditions rows)" and "has_condition c p"
  shows "Payment_findOne (rows @ [p]) c = Some (length rows, p)"
proof -
  have "\<And>r. r \<in> set rows \<Longrightarrow> \<not> has_condition c r"
    using assms(1) by (auto simp: set_conditions)
  then have "takeWhile (\<lambda>r. \<not> has_condition c r) (rows @ [p]) = rows"
    using assms(2) by (simp add: takeWhile_append2)
  then show ?thesis by (simp add: Payment_findOne_def)
qed

lemma conditions_update_same:
  assumes "i < length rows" "execution_condition p = execution_condition (rows ! i)"
  shows "conditions (rows[i := p]) = conditions rows"
proof -
  have "map execution_condition (rows[i := p]) =
        (map execution_condition rows)[i := (map execution_condition rows) ! i]"
    using assms by (simp add: map_update)
  then have "map execution_condition (rows[i := p]) = map execution_condition rows"
    by (simp only: list_update_id)
  then show ?thesis by (simp add: conditions_def)
qed

lemma unique_index:
  "distinct (conditions rows) \<Longrightarrow> i < length rows \<Longrightarrow> j < length rows \<Longrightarrow>
   has_condition c (rows ! i) \<Longrightarrow> has_condition c (rows ! j) \<Longrightarrow> i = j"
proof (induction rows arbitrary: i j)
  case Nil
  then show ?case by simp
next
  case (Cons r rows)
  have tail: "distinct (conditions rows)"
    using Cons.prems(1) by (simp add: conditions_Cons split: option.splits)
  have head: "c \<notin> set (conditions rows)" if "has_condition c r"
    using Cons.prems(1) that by (simp add: conditions_Cons has_condition_def)
  show ?case
  proof (cases i)
    case 0
    note i0 = this
    show ?thesis
    proof (cases j)
      case 0
      with i0 show ?thesis by simp
    next
      case (Suc j')
      have "has_condition c r" using Cons.prems(4) i0 by simp
      moreover have "c \<in> set (conditions rows)"
        using Cons.prems(3,5) Suc by (simp add: nth_condition_mem)
      ultimately show ?thesis using head by blast
    qed
  next
    case (Suc i')
    note iS = this
    have ci: "c \<in> set (conditions rows)"
      using Cons.prems(2,4) Suc by (simp add: nth_condition_mem)
    show ?thesis
    proof (cases j)
      case 0
      have "has_condition c r" using Cons.prems(5) 0 by simp
      then show ?thesis using head ci by blast
    next
      case (Suc j')
      have "i' = j'"
        using Cons.IH[OF tail, of i' j'] Cons.prems(2-5) iS Suc by simp
      then show ?thesis using iS Suc by simp
    qed
  qed
qed

lemma one_row:
  assumes "distinct (conditions rows)" and "c \<in> set (conditions rows)"
  shows "length (filter (has_condition c) rows) = 1"
proof -
  have "length (filter (has_condition c) rows) = length (filter (\<lambda>x. x = c) (conditions rows))"
    by (induction rows)
       (auto simp: conditions_Cons conditions_def has_condition_def split: option.splits)
  also have "\<dots> = card ({x. x = c} \<inter> set (conditions rows))"
    using assms(1) by (rule distinct_length_filter)
  also have "{x. x = c} \<inter> set (conditions rows) = {c}"
    using assms(2) by auto
  finally show ?thesis by simp
qed

lemma violates_unique_iff:
  "violates_unique rows pos p \<longleftrightarrow>
     (\<exists>c. execution_condition p = Some c \<and>
          (\<exists>i<length rows. Some i \<noteq> pos \<and> has_condition c (rows ! i)))"
proof (cases "execution_condition p")
  case None
  then show ?thesis by (simp add: violates_unique_def)
next
  case (Some c)
  have "list_ex (\<lambda>(i, r). Some i \<noteq> pos \<and> has_condition c r) (enumerate 0 rows) \<longleftrightarrow>
        (\<exists>i<length rows. Some i \<noteq> pos \<and> has_condition c (rows ! i))"
    unfolding list_ex_iff by (force simp: in_set_enumerate_eq)
  then show ?thesis using Some by (simp add: violates_unique_def)
qed

lemma create_iff:
  "Payment_create rows p =
     (if (\<exists>c. execution_condition p = Some c \<and> c \<in> set (conditions rows))
      then Inl UniqueConstraintError else Inr (rows @ [p]))"
proof -
  have "(\<exists>i<length rows. has_condition c (rows ! i)) \<longleftrightarrow> c \<in> set (conditions rows)" for c
    unfolding set_conditions by (metis in_set_conv_nth)
  then show ?thesis
    by (simp add: Payment_create_def violates_unique_iff)
qed

lemma save_result:
  "Payment_save rows (pos, p) = Inr saved \<Longrightarrow>
     (pos = None \<and> saved = rows @ [p]) \<or> (\<exists>i. pos = Some i \<and> saved = rows[i := p])"
  by (auto simp: Payment_save_def Payment_create_def split: option.splits if_splits)

text \<open>
  On a table that satisfies its constraint the write of \<open>putResource\<close> is never
  rejected: it appends when no row has the condition and replaces the row that has it.
\<close>

lemma upsert_rows:
  assumes "unique_conditions rows" and "execution_condition sp = Some c"
  shows "(case Payment_save rows (map_option fst (Payment_findOne rows c), sp) of
            Inl e \<Rightarrow> rows
          | Inr saved \<Rightarrow> saved) =
         (case Payment_findOne rows c of
            None \<Rightarrow> rows @ [sp]
          | Some (i, r) \<Rightarrow> rows[i := sp])"
proof (cases "Payment_findOne rows c")
  case None
  then have "c \<notin> set (conditions rows)" by (simp add: findOne_None)
  then have "\<not> violates_unique rows None sp"
    using assms(2) by (auto simp: violates_unique_iff dest: nth_condition_mem)
  then show ?thesis using None by (simp add: Payment_save_def Payment_create_def)
next
  case (Some a)
  obtain i r where a: "a = (i, r)" by (cases a)
  have found: "i < length rows" "has_condition c (rows ! i)"
    using findOne_Some[of rows c i r] Some a by auto
  have "\<not> violates_unique rows (Some i) sp"
  proof
    assume "violates_unique rows (Some i) sp"
    then obtain j where "j < length rows" "j \<noteq> i" "has_condition c (rows ! j)"
      using assms(2) by (auto simp: violates_unique_iff)
    then show False
      using unique_index[of rows i j c] found assms(1) by (simp add: unique_conditions_def)
  qed
  then show ?thesis using Some a by (simp add: Payment_save_def)
qed

lemma setDataExternal_new [simp]: "setDataExternal new_Payment d = d"
  by (cases d)
     (simp add: setDataExternal_def new_Payment_def merge_field_def split: option.splits)

lemma paymentObj_condition [simp]:
  "execution_condition (paymentObj req u params) = Some (condition params)"
  by (simp add: paymentObj_def new_Payment_def)

lemma stored_payment_condition [simp]:
  "execution_condition (stored_payment rows req dest tr) = Some (executionCondition tr)"
  by (simp add: stored_payment_def setDataExternal_def executed_fields_def merge_field_def
      new_Payment_def)

lemma stored_payment_state [simp]:
  "state (stored_payment rows req dest tr) = Some ''success''"
  by (simp add: stored_payment_def setDataExternal_def executed_fields_def merge_field_def
      new_Payment_def)

lemma stored_payment_source_user [simp]:
  "source_user (stored_payment rows req dest tr) = Some (user_id (req_user req))"
  by (simp add: stored_payment_def setDataExternal_def executed_fields_def merge_field_def
      new_Payment_def)

subsection \<open>The handlers, case by case\<close>

lemma spsp_pay_events:
  "(\<exists>e. spsp_pay env p = (Inl e, []) \<or> spsp_pay env p = (Inl e, [LedgerPrepare])) \<or>
   (\<exists>t. spsp_pay env p = (Inr t, [LedgerPrepare, LedgerFulfill]))"
  by (simp add: spsp_pay_def split: sum.split option.split)

lemma putResource_cases [consumes 1, case_names failed executed]:
  assumes "putResource env rows req = (res, rows', evs)"
  obtains
    (failed) e where "res = Inl e" "rows' = rows" "evs = [] \<or> evs = [LedgerPrepare]"
  | (executed) dest tr where
      "validateUriParameter (params_id req) = None"
      "parseDestination env (destination (request_body req)) = Inr dest"
      "spsp_pay env (pay_request req dest) = (Inr tr, [LedgerPrepare, LedgerFulfill])"
      "res = Inr \<lparr>put_status = 200, put_body = body_after req\<rparr>"
      "rows' = (case Payment_save rows
                      (map_option fst (Payment_findOne rows (executionCondition tr)),
                       stored_payment rows req dest tr) of
                  Inl e \<Rightarrow> rows
                | Inr saved \<Rightarrow> saved)"
      "evs = [LedgerPrepare, LedgerFulfill, RecordSave (stored_payment rows req dest tr),
              SocketPayment (username (req_user req)) (stored_payment rows req dest tr)]"
proof (cases "validateUriParameter (params_id req)")
  case (Some e)
  with assms failed show ?thesis by (auto simp: putResource_def)
next
  case None
  note valid = this
  show ?thesis
  proof (cases "parseDestination env (destination (request_body req))")
    case (Inl e)
    with assms valid failed show ?thesis by (auto simp: putResource_def Let_def)
  next
    case (Inr dest)
    from spsp_pay_events[of env "pay_request req dest"] show ?thesis
    proof
      assume "\<exists>e. spsp_pay env (pay_request req dest) = (Inl e, []) \<or>
                  spsp_pay env (pay_request req dest) = (Inl e, [LedgerPrepare])"
      then show ?thesis
        using assms valid Inr failed by (auto simp: putResource_def Let_def pay_request_def)
    next
      assume "\<exists>t. spsp_pay env (pay_request req dest) = (Inr t, [LedgerPrepare, LedgerFulfill])"
      then obtain tr where
        pay: "spsp_pay env (pay_request req dest) = (Inr tr, [LedgerPrepare, LedgerFulfill])"
        by blast
      have "putResource env rows req =
            (Inr \<lparr>put_status = 200, put_body = body_after req\<rparr>,
             (case Payment_save rows
                      (map_option fst (Payment_findOne rows (executionCondition tr)),
                       stored_payment rows req dest tr) of
                Inl e \<Rightarrow> rows
              | Inr saved \<Rightarrow> saved),
             [LedgerPrepare, LedgerFulfill, RecordSave (stored_payment rows req dest tr),
              SocketPayment (username (req_user req)) (stored_payment rows req dest tr)])"
        using valid Inr pay
        by (simp add: putResource_def Let_def stored_payment_def pay_request_def body_after_def)
      with assms have
        "res = Inr \<lparr>put_status = 200, put_body = body_after req\<rparr>"
        "rows' = (case Payment_save rows
                      (map_option fst (Payment_findOne rows (executionCondition tr)),
                       stored_payment rows req dest tr) of
                  Inl e \<Rightarrow> rows
                | Inr saved \<Rightarrow> saved)"
        "evs = [LedgerPrepare, LedgerFulfill, RecordSave (stored_payment rows req dest tr),
              SocketPayment (username (req_user req)) (stored_payment rows req dest tr)]"
        by simp_all
      with valid Inr pay executed show ?thesis by blast
    qed
  qed
qed

lemma setup_result:
  assumes "setup_receiver env users rows req = (res, rows')"
  shows "rows' = rows \<or>
     (\<exists>u params. User_findOne users (params_username req) = Some u \<and>
        createRequest env u (amount req) = Inr params \<and>
        condition params \<notin> set (conditions rows) \<and>
        rows' = rows @ [paymentObj req u params] \<and>
        res = Inr \<lparr>setup_status = None, setup_body = Some params\<rparr>)"
  using assms
  by (auto simp: setup_receiver_def create_iff split: option.splits sum.splits if_splits)

lemma setup_created:
  assumes "setup_receiver env users rows req = (Inr resp, rows')"
    and "setup_body resp = Some params"
  shows "\<exists>u. User_findOne users (params_username req) = Some u \<and>
             createRequest env u (amount req) = Inr params \<and>
             condition params \<notin> set (conditions rows) \<and>
             rows' = rows @ [paymentObj req u params]"
  using assms
  by (auto simp: setup_receiver_def create_iff split: option.splits sum.splits if_splits)

subsection \<open>Numbers\<close>









subsection \<open>One request after the other\<close>

lemma put_step:
  assumes "unique_conditions rows" and "putResource env rows req = (res, rows', evs)"
  shows "unique_conditions rows' \<and>
         set (conditions rows) \<subseteq> set (conditions rows') \<and>
         length rows' + length (conditions rows) = length rows + length (conditions rows') \<and>
         (\<forall>u p. SocketPayment u p \<in> set evs \<longrightarrow>
            (\<exists>c. execution_condition p = Some c \<and> c \<in> set (conditions rows')))"
  using assms(2)
proof (cases rule: putResource_cases)
  case (failed e)
  then show ?thesis using assms(1) by auto
next
  case (executed dest tr)
  let ?c = "executionCondition tr"
  let ?sp = "stored_payment rows req dest tr"
  have eq: "rows' = (case Payment_findOne rows ?c of
            None \<Rightarrow> rows @ [?sp]
          | Some (i, r) \<Rightarrow> rows[i := ?sp])"
    using executed(5) upsert_rows[OF assms(1), of ?sp ?c] by simp
  show ?thesis
  proof (cases "Payment_findOne rows ?c")
    case None
    then have fresh: "?c \<notin> set (conditions rows)" by (simp add: findOne_None)
    have "conditions rows' = conditions rows @ [?c]"
      using eq None by (simp add: conditions_snoc)
    moreover have "length rows' = Suc (length rows)" using eq None by simp
    ultimately show ?thesis
      using assms(1) fresh executed(6) by (auto simp: unique_conditions_def)
  next
    case (Some a)
    obtain i r where a: "a = (i, r)" by (cases a)
    have found: "i < length rows" "has_condition ?c (rows ! i)"
      using findOne_Some[of rows ?c i r] Some a by auto
    have "conditions rows' = conditions rows"
      using eq Some a found by (simp add: conditions_update_same has_condition_def)
    moreover have "?c \<in> set (conditions rows)"
      using found by (rule nth_condition_mem)
    moreover have "length rows' = length rows" using eq Some a by simp
    ultimately show ?thesis
      using assms(1) executed(6) by (auto simp: unique_conditions_def)
  qed
qed

lemma route_step:
  assumes "unique_conditions rows" and "route users rows r = (rows', evs)"
  shows "unique_conditions rows' \<and>
         set (conditions rows) \<subseteq> set (conditions rows') \<and>
         length rows' + length (conditions rows) = length rows + length (conditions rows') \<and>
         (\<forall>u p. SocketPayment u p \<in> set evs \<longrightarrow>
            (\<exists>c. execution_condition p = Some c \<and> c \<in> set (conditions rows')))"
proof (cases r)
  case (Pair env q)
  show ?thesis
  proof (cases q)
    case (GetPayments x)
    with Pair assms show ?thesis by auto
  next
    case (PostQuote x)
    with Pair assms show ?thesis by auto
  next
    case (PutPayment x)
    with Pair assms(2) have "putResource env rows x = (fst (putResource env rows x), rows', evs)"
      by (cases "putResource env rows x") simp
    from put_step[OF assms(1) this] show ?thesis .
  next
    case (PostReceiver x)
    with Pair assms(2) have evs: "evs = []" and
      "setup_receiver env users rows x = (fst (setup_receiver env users rows x), rows')"
      by (cases "setup_receiver env users rows x"; simp)+
    from setup_result[OF this(2)] show ?thesis
      using assms(1) evs
      by (auto simp: unique_conditions_def conditions_snoc)
  qed
qed

lemma serve_steps:
  "unique_conditions rows \<Longrightarrow> serve users rs rows = (rows', evs) \<Longrightarrow>
     unique_conditions rows' \<and>
     set (conditions rows) \<subseteq> set (conditions rows') \<and>
     length rows' + length (conditions rows) = length rows + length (conditions rows') \<and>
     (\<forall>u p. SocketPayment u p \<in> set evs \<longrightarrow>
        (\<exists>c. execution_condition p = Some c \<and> c \<in> set (conditions rows')))"
proof (induction rs arbitrary: rows rows' evs)
  case Nil
  then show ?case by auto
next
  case (Cons r rs)
  obtain rows1 evs1 where r: "route users rows r = (rows1, evs1)"
    by (cases "route users rows r")
  obtain rows2 evs2 where rs: "serve users rs rows1 = (rows2, evs2)"
    by (cases "serve users rs rows1")
  have fin: "rows' = rows2" "evs = evs1 @ evs2"
    using Cons.prems(2) r rs by simp_all
  note s1 = route_step[OF Cons.prems(1) r]
  then have "unique_conditions rows1" by simp
  note s2 = Cons.IH[OF this rs]
  show ?case
    using s1 s2 unfolding fin by (auto; blast)
qed

lemma put_rows:
  assumes "putResource env rows req = (res, rows', evs)"
  shows "rows' = rows \<or>
         (\<exists>p. state p = Some ''success'' \<and>
              (rows' = rows @ [p] \<or> (\<exists>i. rows' = rows[i := p])))"
  using assms
proof (cases rule: putResource_cases)
  case (failed e)
  then show ?thesis by blast
next
  case (executed dest tr)
  let ?sp = "stored_payment rows req dest tr"
  show ?thesis
  proof (cases "Payment_save rows
                  (map_option fst (Payment_findOne rows (executionCondition tr)), ?sp)")
    case (Inl e)
    then show ?thesis using executed(5) by simp
  next
    case (Inr saved)
    from save_result[OF this] have "saved = rows @ [?sp] \<or> (\<exists>i. saved = rows[i := ?sp])"
      by blast
    moreover have "rows' = saved" using executed(5) Inr by simp
    moreover have "state ?sp = Some ''success''" by simp
    ultimately show ?thesis by blast
  qed
qed

lemma route_rows:
  assumes "route users rows r = (rows', evs)"
  shows "rows' = rows \<or>
         (\<exists>p. (state p = Some ''success'' \<or> state p = Some ''pending'') \<and> rows' = rows @ [p]) \<or>
         (\<exists>p i. state p = Some ''success'' \<and> rows' = rows[i := p])"
proof (cases r)
  case (Pair env q)
  show ?thesis
  proof (cases q)
    case (GetPayments x)
    with Pair assms show ?thesis by simp
  next
    case (PostQuote x)
    with Pair assms show ?thesis by simp
  next
    case (PutPayment x)
    with Pair assms have "putResource env rows x = (fst (putResource env rows x), rows', evs)"
      by (cases "putResource env rows x") simp
    from put_rows[OF this] show ?thesis by blast
  next
    case (PostReceiver x)
    with Pair assms have
      "setup_receiver env users rows x = (fst (setup_receiver env users rows x), rows')"
      by (cases "setup_receiver env users rows x") simp
    from setup_result[OF this] show ?thesis
      by (auto simp: paymentObj_def new_Payment_def)
  qed
qed

subsection \<open>The row of an execution\<close>

text \<open>
  On a table that satisfies its constraint, an execution that succeeds replaces the
  row found under its condition, or appends its payment when there is none; the
  payment it saved is then the one row under the condition.
\<close>

lemma executed_row:
  assumes "unique_conditions rows"
    and "putResource env rows req = (Inr resp, rows', evs)"
  shows "\<exists>dest tr.
           evs = [LedgerPrepare, LedgerFulfill, RecordSave (stored_payment rows req dest tr),
                  SocketPayment (username (req_user req)) (stored_payment rows req dest tr)] \<and>
           (case Payment_findOne rows (executionCondition tr) of
              None \<Rightarrow> rows' = rows @ [stored_payment rows req dest tr]
            | Some (i, r) \<Rightarrow>
                rows' = rows[i := stored_payment rows req dest tr] \<and> i < length rows \<and>
                rows ! i = r \<and> has_condition (executionCondition tr) r) \<and>
           stored_payment rows req dest tr \<in> set rows' \<and>
           unique_conditions rows'"
  using assms(2)
proof (cases rule: putResource_cases)
  case (failed e)
  then show ?thesis by simp
next
  case (executed dest tr)
  let ?c = "executionCondition tr"
  let ?p = "stored_payment rows req dest tr"
  have eq: "rows' = (case Payment_findOne rows ?c of
                       None \<Rightarrow> rows @ [?p]
                     | Some (i, r) \<Rightarrow> rows[i := ?p])"
    using executed(5) upsert_rows[OF assms(1), of ?p ?c] by simp
  have uniq: "unique_conditions rows'"
    using put_step[OF assms] by blast
  have "(case Payment_findOne rows ?c of
              None \<Rightarrow> rows' = rows @ [?p]
            | Some (i, r) \<Rightarrow>
                rows' = rows[i := ?p] \<and> i < length rows \<and> rows ! i = r \<and> has_condition ?c r) \<and>
        ?p \<in> set rows'"
  proof (cases "Payment_findOne rows ?c")
    case None
    then show ?thesis using eq by simp
  next
    case (Some a)
    obtain i r where a: "a = (i, r)" by (cases a)
    have "i < length rows" "r = rows ! i" "has_condition ?c r"
      using findOne_Some[of rows ?c i r] Some a by auto
    then show ?thesis using eq Some a by (simp add: set_update_memI)
  qed
  then show ?thesis using executed(6) uniq by blast
qed

lemma only_row:
  assumes "unique_conditions rows" and "q \<in> set rows" and "has_condition c q"
  shows "filter (has_condition c) rows = [q]"
proof -
  have "c \<in> set (conditions rows)" using assms(2,3) by (auto simp: set_conditions)
  then have "length (filter (has_condition c) rows) = 1"
    using assms(1) by (simp add: one_row unique_conditions_def)
  then obtain q' where q': "filter (has_condition c) rows = [q']"
    by (cases "filter (has_condition c) rows") auto
  moreover have "q \<in> set (filter (has_condition c) rows)" using assms(2,3) by simp
  ultimately show ?thesis by simp
qed

text \<open>A row that is in state \<open>success\<close> under a condition stays so.\<close>

lemma put_keeps_success:
  assumes "putResource env rows req = (res, rows', evs)"
    and "q \<in> set rows" and "has_condition c q" and "state q = Some ''success''"
  shows "\<exists>q'\<in>set rows'. has_condition c q' \<and> state q' = Some ''success''"
  using assms(1)
proof (cases rule: putResource_cases)
  case (failed e)
  then show ?thesis using assms(2-4) by blast
next
  case (executed dest tr)
  let ?c = "executionCondition tr"
  let ?p = "stored_payment rows req dest tr"
  show ?thesis
  proof (cases "Payment_save rows (map_option fst (Payment_findOne rows ?c), ?p)")
    case (Inl e)
    then show ?thesis using executed(5) assms(2-4) by auto
  next
    case (Inr saved)
    then have rows': "rows' = saved" using executed(5) by simp
    from save_result[OF Inr] show ?thesis
    proof
      assume "map_option fst (Payment_findOne rows ?c) = None \<and> saved = rows @ [?p]"
      then show ?thesis using rows' assms(2-4) by auto
    next
      assume "\<exists>i. map_option fst (Payment_findOne rows ?c) = Some i \<and> saved = rows[i := ?p]"
      then obtain i r where found: "Payment_findOne rows ?c = Some (i, r)"
        and saved: "saved = rows[i := ?p]"
        by auto
      have i: "i < length rows" "has_condition ?c (rows ! i)"
        using findOne_Some[OF found] by auto
      obtain j where j: "j < length rows" "rows ! j = q"
        using assms(2) by (auto simp: in_set_conv_nth)
      show ?thesis
      proof (cases "j = i")
        case True
        then have "c = ?c" using i(2) j(2) assms(3) by (simp add: has_condition_def)
        moreover have "?p \<in> set rows'" using rows' saved i(1) by (simp add: set_update_memI)
        ultimately show ?thesis
          by (intro bexI[of _ ?p]) (simp_all add: has_condition_def)
      next
        case False
        then have "rows' ! j = q" using rows' saved j by simp
        moreover have "j < length rows'" using rows' saved j(1) by simp
        ultimately have "q \<in> set rows'" by (metis nth_mem)
        then show ?thesis using assms(3,4) by blast
      qed
    qed
  qed
qed

lemma route_keeps_success:
  assumes "route users rows r = (rows', evs)"
    and "q \<in> set rows" and "has_condition c q" and "state q = Some ''success''"
  shows "\<exists>q'\<in>set rows'. has_condition c q' \<and> state q' = Some ''success''"
proof (cases r)
  case (Pair env x)
  show ?thesis
  proof (cases x)
    case (GetPayments y)
    with Pair assms show ?thesis by auto
  next
    case (PostQuote y)
    with Pair assms show ?thesis by auto
  next
    case (PutPayment y)
    with Pair assms(1) have "putResource env rows y = (fst (putResource env rows y), rows', evs)"
      by (cases "putResource env rows y") simp
    from put_keeps_success[OF this assms(2-4)] show ?thesis .
  next
    case (PostReceiver y)
    with Pair assms(1) have
      "setup_receiver env users rows y = (fst (setup_receiver env users rows y), rows')"
      by (cases "setup_receiver env users rows y") simp
    from setup_result[OF this] show ?thesis using assms(2-4) by auto
  qed
qed

lemma serve_keeps_success:
  "serve users rs rows = (rows', evs) \<Longrightarrow> q \<in> set rows \<Longrightarrow> has_condition c q \<Longrightarrow>
   state q = Some ''success'' \<Longrightarrow>
   \<exists>q'\<in>set rows'. has_condition c q' \<and> state q' = Some ''success''"
proof (induction rs arbitrary: rows rows' evs q)
  case Nil
  then show ?case by auto
next
  case (Cons r rs)
  obtain rows1 evs1 where r: "route users rows r = (rows1, evs1)"
    by (cases "route users rows r")
  obtain rows2 evs2 where rs: "serve users rs rows1 = (rows2, evs2)"
    by (cases "serve users rs rows1")
  have fin: "rows' = rows2" using Cons.prems(1) r rs by simp
  from route_keeps_success[OF r Cons.prems(2-4)] obtain q1 where
    "q1 \<in> set rows1" "has_condition c q1" "state q1 = Some ''success''"
    by blast
  from Cons.IH[OF rs this] show ?case unfolding fin .
qed

lemma route_published:
  assumes "unique_conditions rows" and "route users rows r = (rows', evs)"
    and "SocketPayment u p \<in> set evs"
  shows "\<exists>c. execution_condition p = Some c \<and>
             (\<exists>q\<in>set rows'. has_condition c q \<and> state q = Some ''success'')"
proof (cases r)
  case (Pair env x)
  show ?thesis
  proof (cases x)
    case (GetPayments y)
    with Pair assms show ?thesis by auto
  next
    case (PostQuote y)
    with Pair assms show ?thesis by auto
  next
    case (PutPayment y)
    with Pair assms(2) have run: "putResource env rows y = (fst (putResource env rows y), rows', evs)"
      by (cases "putResource env rows y") simp
    from run show ?thesis
    proof (cases rule: putResource_cases)
      case (failed e)
      then show ?thesis using assms(3) by auto
    next
      case (executed dest tr)
      then have "putResource env rows y =
                   (Inr \<lparr>put_status = 200, put_body = body_after y\<rparr>, rows', evs)"
        using run by simp
      from executed_row[OF assms(1) this] obtain dest' tr' where
        evs': "evs = [LedgerPrepare, LedgerFulfill, RecordSave (stored_payment rows y dest' tr'),
                SocketPayment (username (req_user y)) (stored_payment rows y dest' tr')]" and
        mem: "stored_payment rows y dest' tr' \<in> set rows'"
        by blast
      have p: "p = stored_payment rows y dest' tr'" using assms(3) evs' by simp
      show ?thesis
        unfolding p using mem
        by (intro exI[of _ "executionCondition tr'"] conjI bexI[of _ "stored_payment rows y dest' tr'"])
           (simp_all add: has_condition_def)
    qed
  next
    case (PostReceiver y)
    with Pair assms show ?thesis by auto
  qed
qed

lemma serve_published:
  "unique_conditions rows \<Longrightarrow> serve users rs rows = (rows', evs) \<Longrightarrow>
   SocketPayment u p \<in> set evs \<Longrightarrow>
   \<exists>c. execution_condition p = Some c \<and>
       (\<exists>q\<in>set rows'. has_condition c q \<and> state q = Some ''success'')"
proof (induction rs arbitrary: rows rows' evs)
  case Nil
  then show ?case by simp
next
  case (Cons r rs)
  obtain rows1 evs1 where r: "route users rows r = (rows1, evs1)"
    by (cases "route users rows r")
  obtain rows2 evs2 where rs: "serve users rs rows1 = (rows2, evs2)"
    by (cases "serve users rs rows1")
  have fin: "rows' = rows2" "evs = evs1 @ evs2"
    using Cons.prems(2) r rs by simp_all
  have uniq1: "unique_conditions rows1"
    using route_step[OF Cons.prems(1) r] by blast
  from Cons.prems(3) fin consider "SocketPayment u p \<in> set evs1" | "SocketPayment u p \<in> set evs2"
    by auto
  then show ?case
  proof cases
    case 1
    from route_published[OF Cons.prems(1) r 1] obtain c q where
      c: "execution_condition p = Some c" and
      q: "q \<in> set rows1" "has_condition c q" "state q = Some ''success''"
      by blast
    from serve_keeps_success[OF rs q] c show ?thesis unfolding fin by blast
  next
    case 2
    from Cons.IH[OF uniq1 rs 2] show ?thesis unfolding fin .
  qed
qed

subsection \<open>The wallet, run\<close>

lemmas wallet_defs =
  wallet_def alice_def bob_def alice_pays_bob_def bob_requests_def pending_row_def paid_row_def
  paid_events_def

lemmas handler_defs =
  putResource_def setup_receiver_def validateUriParameter_def is_uuid_def is_hex_def
  toLowerCase_def parseDestination_def spsp_pay_def Payment_findOne_def Payment_save_def
  Payment_create_def violates_unique_def has_condition_def setDataExternal_def
  executed_fields_def paymentObj_def new_Payment_def merge_field_def User_findOne_def
  body_after_def Let_def

lemma bob_requests_run:
  "setup_receiver wallet [alice, bob] [] bob_requests =
     (Inr \<lparr>setup_status = None,
           setup_body = Some \<lparr>condition = ''cc:0:3:C'', request_amount = Some ''1''\<rparr>\<rparr>,
      [pending_row])"
  by (simp add: wallet_defs handler_defs)

lemma alice_pays_pending:
  "putResource wallet [pending_row] alice_pays_bob =
     (Inr \<lparr>put_status = 200, put_body = body_after alice_pays_bob\<rparr>, [paid_row], paid_events)"
  by (simp add: wallet_defs handler_defs)

lemma alice_pays_again:
  "putResource wallet [paid_row] alice_pays_bob =
     (Inr \<lparr>put_status = 200, put_body = body_after alice_pays_bob\<rparr>, [paid_row], paid_events)"
  by (simp add: wallet_defs handler_defs)

lemma unique_Nil: "unique_conditions []"
  by (simp add: unique_conditions_def conditions_def)

lemma unique_pending: "unique_conditions [pending_row]"
  by (simp add: unique_conditions_def conditions_def)

section \<open>The claims\<close>

subsection \<open>C1: one row per execution condition\<close>

text \<open>
  C1. \<open>putResource\<close> looks the executed condition up before it writes. On a table
  with no condition on two rows, an execution that succeeds replaces the row found
  under its condition by the payment it saved, in place, and appends that payment only
  when no row has the condition; the payment is then the one row under the condition.
  After any sequence of requests, whatever their outcome, no condition is on two rows,
  every payment that was published has exactly one row under its condition, that row
  is in state \<open>success\<close>, and the table has grown by exactly one row per new
  condition.
\<close>

theorem putResource_upserts_by_condition:
  assumes "unique_conditions rows"
  shows "(\<forall>env req resp rows' evs.
            putResource env rows req = (Inr resp, rows', evs) \<longrightarrow>
            (\<exists>dest tr p c.
               p = stored_payment rows req dest tr \<and>
               c = executionCondition tr \<and>
               evs = [LedgerPrepare, LedgerFulfill, RecordSave p,
                      SocketPayment (username (req_user req)) p] \<and>
               execution_condition p = Some c \<and>
               state p = Some ''success'' \<and>
               (case Payment_findOne rows c of
                  None \<Rightarrow> rows' = rows @ [p]
                | Some (i, r) \<Rightarrow>
                    rows' = rows[i := p] \<and> i < length rows \<and> rows ! i = r \<and>
                    has_condition c r) \<and>
               filter (has_condition c) rows' = [p])) \<and>
         (\<forall>users rs rows' evs.
            serve users rs rows = (rows', evs) \<longrightarrow>
            unique_conditions rows' \<and>
            (\<forall>u p. SocketPayment u p \<in> set evs \<longrightarrow>
               (\<exists>c q. execution_condition p = Some c \<and>
                      filter (has_condition c) rows' = [q] \<and>
                      state q = Some ''success'')) \<and>
            length rows' + length (conditions rows) = length rows + length (conditions rows'))"
proof (intro conjI allI impI)
  fix env req resp rows' evs
  assume run: "putResource env rows req = (Inr resp, rows', evs)"
  from executed_row[OF assms run] obtain dest tr where
    evs: "evs = [LedgerPrepare, LedgerFulfill, RecordSave (stored_payment rows req dest tr),
                 SocketPayment (username (req_user req)) (stored_payment rows req dest tr)]" and
    rows': "(case Payment_findOne rows (executionCondition tr) of
              None \<Rightarrow> rows' = rows @ [stored_payment rows req dest tr]
            | Some (i, r) \<Rightarrow>
                rows' = rows[i := stored_payment rows req dest tr] \<and> i < length rows \<and>
                rows ! i = r \<and> has_condition (executionCondition tr) r)" and
    mem: "stored_payment rows req dest tr \<in> set rows'" and
    uniq: "unique_conditions rows'"
    by blast
  have "filter (has_condition (executionCondition tr)) rows' = [stored_payment rows req dest tr]"
    using only_row[OF uniq mem] by (simp add: has_condition_def)
  then show "\<exists>dest tr p c.
               p = stored_payment rows req dest tr \<and>
               c = executionCondition tr \<and>
               evs = [LedgerPrepare, LedgerFulfill, RecordSave p,
                      SocketPayment (username (req_user req)) p] \<and>
               execution_condition p = Some c \<and>
               state p = Some ''success'' \<and>
               (case Payment_findOne rows c of
                  None \<Rightarrow> rows' = rows @ [p]
                | Some (i, r) \<Rightarrow>
                    rows' = rows[i := p] \<and> i < length rows \<and> rows ! i = r \<and>
                    has_condition c r) \<and>
               filter (has_condition c) rows' = [p]"
    using evs rows' by (intro exI[of _ dest] exI[of _ tr]) simp
next
  fix users rs rows' evs
  assume run: "serve users rs rows = (rows', evs)"
  from serve_steps[OF assms run] show "unique_conditions rows'" by blast
next
  fix users rs rows' evs u p
  assume run: "serve users rs rows = (rows', evs)" and publ: "SocketPayment u p \<in> set evs"
  have uniq: "unique_conditions rows'" using serve_steps[OF assms run] by blast
  from serve_published[OF assms run publ] obtain c q where
    "execution_condition p = Some c" "q \<in> set rows'" "has_condition c q"
    "state q = Some ''success''"
    by blast
  then show "\<exists>c q. execution_condition p = Some c \<and>
                   filter (has_condition c) rows' = [q] \<and> state q = Some ''success''"
    using only_row[OF uniq] by blast
next
  fix users rs rows' evs
  assume run: "serve users rs rows = (rows', evs)"
  from serve_steps[OF assms run]
  show "length rows' + length (conditions rows) = length rows + length (conditions rows')"
    by blast
qed

theorem putResource_upserts_by_condition_witness:
  "unique_conditions [pending_row] \<and>
   putResource wallet [pending_row] alice_pays_bob =
     (Inr \<lparr>put_status = 200, put_body = body_after alice_pays_bob\<rparr>, [paid_row], paid_events) \<and>
   Payment_findOne [pending_row] ''cc:0:3:C'' = Some (0, pending_row) \<and>
   [paid_row] = [pending_row][0 := paid_row] \<and>
   filter (has_condition ''cc:0:3:C'') [paid_row] = [paid_row] \<and>
   state paid_row = Some ''success'' \<and>
   serve [alice, bob] [(wallet, PutPayment alice_pays_bob), (wallet, PutPayment alice_pays_bob)]
     [pending_row] = ([paid_row], paid_events @ paid_events) \<and>
   unique_conditions [paid_row]"
proof -
  have again: "serve [alice, bob]
                 [(wallet, PutPayment alice_pays_bob), (wallet, PutPayment alice_pays_bob)]
                 [pending_row] = ([paid_row], paid_events @ paid_events)"
    by (simp add: alice_pays_pending alice_pays_again)
  have found: "Payment_findOne [pending_row] ''cc:0:3:C'' = Some (0, pending_row)"
    by (simp add: Payment_findOne_def has_condition_def pending_row_def)
  have published: "SocketPayment ''alice'' paid_row \<in> set (paid_events @ paid_events)"
    by (simp add: paid_events_def)
  note inst = putResource_upserts_by_condition[OF unique_pending]
  from inst alice_pays_pending obtain dest tr p c where
    ev: "paid_events = [LedgerPrepare, LedgerFulfill, RecordSave p,
                        SocketPayment (username (req_user alice_pays_bob)) p]" and
    pc: "execution_condition p = Some c" and
    ps: "state p = Some ''success''" and
    pf: "filter (has_condition c) [paid_row] = [p]"
    by blast
  have p: "p = paid_row" using ev by (simp add: paid_events_def)
  have c: "c = ''cc:0:3:C''" using pc unfolding p by (simp add: paid_row_def)
  have one: "filter (has_condition ''cc:0:3:C'') [paid_row] = [paid_row]"
    "state paid_row = Some ''success''"
    using pf ps unfolding p c by simp_all
  from inst again have "unique_conditions [paid_row]" by blast
  then show ?thesis
    using unique_pending alice_pays_pending found one again by simp
qed

subsection \<open>C2: the states of a row\<close>

text \<open>
  C2, as the code has it. A request either leaves a row as it was or, in
  \<open>putResource\<close>, sets the row found under the executed condition to
  \<open>success\<close>, whatever its state was; a new row is inserted as \<open>pending\<close> by the
  receiver's request or as \<open>success\<close> by \<open>putResource\<close>. So a pending row can
  move to \<open>success\<close>, a row in \<open>success\<close> stays there, and no request writes
  \<open>failed\<close>.
\<close>

theorem route_state_changes:
  assumes "route users rows r = (rows', evs)"
  shows "length rows \<le> length rows' \<and>
         (\<forall>i<length rows. rows' ! i = rows ! i \<or> state (rows' ! i) = Some ''success'') \<and>
         (\<forall>i<length rows. state (rows ! i) = Some ''success'' \<longrightarrow>
                            state (rows' ! i) = Some ''success'') \<and>
         (\<forall>i<length rows'. length rows \<le> i \<longrightarrow>
              state (rows' ! i) = Some ''pending'' \<or> state (rows' ! i) = Some ''success'')"
proof -
  have upd: "rows[i := p] ! j = (if i = j then p else rows ! j)" if "j < length rows"
    for i j and p :: payment
    using that by (cases "i = j") simp_all
  from route_rows[OF assms] consider
      "rows' = rows"
    | p where "state p = Some ''success'' \<or> state p = Some ''pending''" "rows' = rows @ [p]"
    | p i where "state p = Some ''success''" "rows' = rows[i := p]"
    by blast
  then show ?thesis
  proof cases
    case 1
    then show ?thesis by simp
  next
    case 2
    then show ?thesis by (auto simp: nth_append less_Suc_eq)
  next
    case 3
    then show ?thesis by (simp add: upd)
  qed
qed

theorem route_state_changes_witness:
  "route [alice, bob] [pending_row] (wallet, PutPayment alice_pays_bob) =
     ([paid_row], paid_events) \<and>
   state pending_row = Some ''pending'' \<and>
   state ([paid_row] ! 0) = Some ''success''"
proof -
  have run: "route [alice, bob] [pending_row] (wallet, PutPayment alice_pays_bob) =
               ([paid_row], paid_events)"
    by (simp add: alice_pays_pending)
  from route_state_changes[OF run]
  have "[paid_row] ! 0 = [pending_row] ! 0 \<or> state ([paid_row] ! 0) = Some ''success''"
    by simp
  moreover have "paid_row \<noteq> pending_row" by (simp add: paid_row_def pending_row_def)
  ultimately show ?thesis using run by (simp add: pending_row_def)
qed

text \<open>
  The claim as stated fails for the state \<open>failed\<close>: a row in that state whose
  condition is executed is moved to \<open>success\<close>.
\<close>

theorem failed_row_leaves_failed:
  "state failed_row = Some ''failed'' \<and>
   map state (fst (snd (putResource wallet [failed_row] alice_pays_bob))) = [Some ''success'']"
  by (simp add: failed_row_def wallet_defs handler_defs)

subsection \<open>C3: the receiver's row, executed\<close>

text \<open>
  C3, as the code has it. When the receiver's request has created the pending row
  under its condition and an execution resolves to that condition, the table has the
  one row, now in state \<open>success\<close>. The row keeps the fields only the receiver's
  request writes (\<open>destination_user\<close>, \<open>source_account\<close>) and carries the
  fields the execution writes (\<open>source_user\<close>, \<open>transfer\<close>,
  \<open>destination_account\<close>, \<open>source_amount\<close>). Both paths write
  \<open>destination_amount\<close> and \<open>message\<close>: there the row holds the sender's
  value when the sender's body gives one, and the receiver's value otherwise.
\<close>

theorem setup_then_execute_merges:
  assumes uniq: "unique_conditions rows"
    and made: "setup_receiver env users rows sreq = (Inr sresp, rows1)"
    and body: "setup_body sresp = Some params"
    and paid: "putResource env' rows1 preq = (Inr presp, rows2, evs)"
    and publ: "SocketPayment who p \<in> set evs"
    and same: "execution_condition p = Some (condition params)"
  shows "\<exists>u. User_findOne users (params_username sreq) = Some u \<and>
           rows2 = rows @ [p] \<and>
           state p = Some ''success'' \<and>
           destination_user p = Some (user_id u) \<and>
           source_account p = sender_identifier sreq \<and>
           source_user p = Some (user_id (req_user preq)) \<and>
           transfer p \<noteq> None \<and>
           destination_account p \<noteq> None \<and>
           source_amount p = sourceAmount (request_body preq) \<and>
           destination_amount p =
             merge_field (amount sreq) (destinationAmount (request_body preq)) \<and>
           message p = merge_field (memo sreq) (body_message (request_body preq))"
proof -
  from setup_created[OF made body] obtain u where
    u: "User_findOne users (params_username sreq) = Some u" and
    fresh: "condition params \<notin> set (conditions rows)" and
    rows1: "rows1 = rows @ [paymentObj sreq u params]"
    by blast
  let ?p0 = "paymentObj sreq u params"
  have uniq1: "unique_conditions rows1"
    using uniq fresh rows1 by (simp add: unique_conditions_def conditions_snoc)
  from paid show ?thesis
  proof (cases rule: putResource_cases)
    case (failed e)
    then show ?thesis by simp
  next
    case (executed dest tr)
    have p: "p = stored_payment rows1 preq dest tr"
      using publ executed(6) by simp
    then have c: "executionCondition tr = condition params"
      using same by simp
    have found: "Payment_findOne rows1 (executionCondition tr) = Some (length rows, ?p0)"
      unfolding rows1 c using fresh by (intro findOne_snoc) (simp_all add: has_condition_def)
    have "rows2 = rows1[length rows := p]"
      using executed(5) upsert_rows[OF uniq1, of p "executionCondition tr"] found p by simp
    then have r2: "rows2 = rows @ [p]" by (simp add: rows1)
    have fields: "p = setDataExternal ?p0 (executed_fields (req_user preq) (body_after preq) dest tr)"
      using p found by (simp add: stored_payment_def)
    show ?thesis
      using u r2 unfolding fields
      by (simp add: setDataExternal_def executed_fields_def paymentObj_def new_Payment_def
          merge_field_def body_after_def split: option.splits)
  qed
qed

theorem setup_then_execute_merges_witness:
  "unique_conditions [] \<and>
   setup_receiver wallet [alice, bob] [] bob_requests =
     (Inr \<lparr>setup_status = None,
           setup_body = Some \<lparr>condition = ''cc:0:3:C'', request_amount = Some ''1''\<rparr>\<rparr>,
      [pending_row]) \<and>
   putResource wallet [pending_row] alice_pays_bob =
     (Inr \<lparr>put_status = 200, put_body = body_after alice_pays_bob\<rparr>, [paid_row], paid_events) \<and>
   state paid_row = Some ''success'' \<and>
   destination_user paid_row = Some 2 \<and>
   source_user paid_row = Some 1 \<and>
   message paid_row = Some ''hi''"
proof -
  have publ: "SocketPayment ''alice'' paid_row \<in> set paid_events"
    by (simp add: paid_events_def)
  have same: "execution_condition paid_row =
                Some (condition \<lparr>condition = ''cc:0:3:C'', request_amount = Some ''1''\<rparr>)"
    by (simp add: paid_row_def)
  from setup_then_execute_merges[OF unique_Nil bob_requests_run _ alice_pays_pending publ same]
  have "state paid_row = Some ''success''"
    and "source_user paid_row = Some (user_id (req_user alice_pays_bob))"
    and "message paid_row =
           merge_field (memo bob_requests) (body_message (request_body alice_pays_bob))"
    by auto
  then show ?thesis
    using unique_Nil bob_requests_run alice_pays_pending
    by (simp add: paid_row_def alice_pays_bob_def alice_def)
qed

text \<open>
  The claim as stated fails for the fields both paths write: the receiver's request
  stored the message \<open>invoice 42\<close>, and after the execution the row holds the
  sender's \<open>hi\<close>.
\<close>

theorem receiver_message_overwritten:
  "snd (setup_receiver wallet [alice, bob] [] bob_requests) = [pending_row] \<and>
   message pending_row = Some ''invoice 42'' \<and>
   fst (snd (putResource wallet [pending_row] alice_pays_bob)) = [paid_row] \<and>
   message paid_row = Some ''hi''"
proof -
  have "message pending_row = Some ''invoice 42''" by (simp add: pending_row_def)
  moreover have "message paid_row = Some ''hi''" by (simp add: paid_row_def)
  ultimately show ?thesis by (simp add: bob_requests_run alice_pays_pending)
qed

subsection \<open>C4: the amounts of a quote request\<close>

text \<open>
  C4. A quote request must give exactly one of the two amounts: given both or
  neither, \<open>spsp.quote\<close> fails with \<open>InvalidQuoteRequestError\<close>, for every
  source and every resolved destination. The handler checks nothing itself: it
  resolves the destination and passes both amounts on, so a request with both amounts
  or with neither returns no quote, and fails with that error whenever its destination
  resolves.
\<close>

theorem quote_requires_one_amount:
  "((quote_sourceAmount q = None) = (quote_destinationAmount q = None) \<longrightarrow>
      spsp_quote env q = Inl InvalidQuoteRequestError) \<and>
   ((q_source_amount req = None) = (q_destination_amount req = None) \<longrightarrow>
      (\<exists>e. quote env req = Inl e) \<and>
      (\<forall>dest. parseDestination env (q_destination req) = Inr dest \<longrightarrow>
              quote env req = Inl InvalidQuoteRequestError))"
proof -
  have engine: "spsp_quote env q = Inl InvalidQuoteRequestError"
    if "(quote_sourceAmount q = None) = (quote_destinationAmount q = None)" for q
    using that
    by (cases "quote_sourceAmount q"; cases "quote_destinationAmount q")
       (simp_all add: spsp_quote_def)
  have handler: "(\<exists>e. quote env req = Inl e) \<and>
      (\<forall>dest. parseDestination env (q_destination req) = Inr dest \<longrightarrow>
              quote env req = Inl InvalidQuoteRequestError)"
    if "(q_source_amount req = None) = (q_destination_amount req = None)"
    using that by (cases "parseDestination env (q_destination req)") (simp_all add: quote_def engine)
  show ?thesis
  proof (intro conjI impI)
    assume "(quote_sourceAmount q = None) = (quote_destinationAmount q = None)"
    then show "spsp_quote env q = Inl InvalidQuoteRequestError" by (rule engine)
  next
    assume a: "(q_source_amount req = None) = (q_destination_amount req = None)"
    from handler[OF a] show "\<exists>e. quote env req = Inl e" by (rule conjunct1)
  next
    assume a: "(q_source_amount req = None) = (q_destination_amount req = None)"
    from handler[OF a]
    show "\<forall>dest. parseDestination env (q_destination req) = Inr dest \<longrightarrow>
                quote env req = Inl InvalidQuoteRequestError"
      by (rule conjunct2)
  qed
qed

theorem quote_requires_one_amount_witness:
  "(q_source_amount quote_neither_amount = None) =
     (q_destination_amount quote_neither_amount = None) \<and>
   parseDestination wallet (q_destination quote_neither_amount) =
     Inr \<lparr>dest_type = LOCAL, accountUri = ''https://wallet.example/ledger/accounts/bob'',
          ledgerHost = ''wallet.example''\<rparr> \<and>
   quote wallet quote_neither_amount = Inl InvalidQuoteRequestError \<and>
   spsp_quote wallet
     \<lparr>quote_source = alice,
      quote_destination =
        \<lparr>dest_type = LOCAL, accountUri = ''https://wallet.example/ledger/accounts/bob'',
         ledgerHost = ''wallet.example''\<rparr>,
      quote_sourceAmount = Some ''10'', quote_destinationAmount = Some ''10''\<rparr> =
     Inl InvalidQuoteRequestError"
proof -
  let ?bob = "\<lparr>dest_type = LOCAL, accountUri = ''https://wallet.example/ledger/accounts/bob'',
               ledgerHost = ''wallet.example''\<rparr>"
  let ?both = "\<lparr>quote_source = alice, quote_destination = ?bob,
                quote_sourceAmount = Some ''10'', quote_destinationAmount = Some ''10''\<rparr>"
  have amounts: "(q_source_amount quote_neither_amount = None) =
                 (q_destination_amount quote_neither_amount = None)"
    by (simp add: quote_neither_amount_def)
  have resolved: "parseDestination wallet (q_destination quote_neither_amount) = Inr ?bob"
    by (simp add: quote_neither_amount_def parseDestination_def wallet_def)
  have both: "(quote_sourceAmount ?both = None) = (quote_destinationAmount ?both = None)"
    by simp
  note inst = quote_requires_one_amount[of ?both wallet quote_neither_amount]
  have engine: "spsp_quote wallet ?both = Inl InvalidQuoteRequestError"
    by (rule inst[THEN conjunct1, THEN mp, OF both])
  have handler: "quote wallet quote_neither_amount = Inl InvalidQuoteRequestError"
    by (rule inst[THEN conjunct2, THEN mp, OF amounts, THEN conjunct2, THEN spec, THEN mp,
                  OF resolved])
  from engine handler
  have "quote wallet quote_neither_amount = Inl InvalidQuoteRequestError"
    and "spsp_quote wallet ?both = Inl InvalidQuoteRequestError"
    by simp_all
  then show ?thesis using amounts resolved by simp
qed

subsection \<open>C5: the quote for a local destination\<close>

text \<open>
  C5. A quote whose destination resolves to LOCAL has the same source and destination
  amount.
\<close>

theorem local_quote_identity:
  assumes "quote env req = Inr q"
    and "parseDestination env (q_destination req) = Inr dest"
    and "dest_type dest = LOCAL"
  shows "quoted_sourceAmount q = quoted_destinationAmount q"
  using assms
  by (cases "q_source_amount req"; cases "q_destination_amount req")
     (auto simp: quote_def spsp_quote_def)

theorem local_quote_identity_witness:
  "quote wallet quote_for_bob =
     Inr \<lparr>quoted_sourceAmount = ''10'', quoted_destinationAmount = ''10''\<rparr> \<and>
   dest_type \<lparr>dest_type = LOCAL, accountUri = ''https://wallet.example/ledger/accounts/bob'',
             ledgerHost = ''wallet.example''\<rparr> = LOCAL \<and>
   quoted_sourceAmount \<lparr>quoted_sourceAmount = ''10'', quoted_destinationAmount = ''10''\<rparr> =
   quoted_destinationAmount \<lparr>quoted_sourceAmount = ''10'', quoted_destinationAmount = ''10''\<rparr>"
proof -
  have resolved: "parseDestination wallet (q_destination quote_for_bob) =
     Inr \<lparr>dest_type = LOCAL, accountUri = ''https://wallet.example/ledger/accounts/bob'',
          ledgerHost = ''wallet.example''\<rparr>"
    by (simp add: quote_for_bob_def parseDestination_def wallet_def)
  have quoted: "quote wallet quote_for_bob =
     Inr \<lparr>quoted_sourceAmount = ''10'', quoted_destinationAmount = ''10''\<rparr>"
    by (simp add: quote_for_bob_def quote_def spsp_quote_def parseDestination_def wallet_def)
  from local_quote_identity[OF quoted resolved] quoted show ?thesis by simp
qed

subsection \<open>C6: an unknown receiver\<close>

text \<open>
  C6. When no user has the requested name, the receiver's request ends without an
  exception, with status 404 (the specification's \<open>UnknownReceiverError\<close>, which
  the caller sees as ``not found''), sets no body, and leaves the table as it was: no
  row is created.
\<close>

theorem unknown_receiver_not_found:
  assumes "User_findOne users (params_username req) = None"
  shows "setup_receiver env users rows req =
           (Inr \<lparr>setup_status = Some 404, setup_body = None\<rparr>, rows)"
  using assms by (simp add: setup_receiver_def)

theorem unknown_receiver_not_found_witness:
  "User_findOne [alice, bob] (params_username dave_requests) = None \<and>
   setup_receiver wallet [alice, bob] [paid_row] dave_requests =
     (Inr \<lparr>setup_status = Some 404, setup_body = None\<rparr>, [paid_row])"
proof -
  have unknown: "User_findOne [alice, bob] (params_username dave_requests) = None"
    by (simp add: User_findOne_def dave_requests_def bob_requests_def alice_def bob_def)
  from unknown_receiver_not_found[OF unknown] unknown show ?thesis by simp
qed

subsection \<open>C7: the order of the steps of an execution\<close>

text \<open>
  C7. In one run of \<open>putResource\<close> the ledger is prepared before it is fulfilled,
  and the fulfilment comes before the write of the payment row and before the
  notification. A run that succeeds takes the four steps in that order; a run that
  fails writes no row and publishes nothing.
\<close>

theorem putResource_order:
  assumes "putResource env rows req = (res, rows', evs)"
  shows "precedes Prepare Fulfill (map step_of evs) \<and>
         precedes Fulfill Upsert (map step_of evs) \<and>
         precedes Fulfill Publish (map step_of evs) \<and>
         (\<forall>resp. res = Inr resp \<longrightarrow> map step_of evs = [Prepare, Fulfill, Upsert, Publish]) \<and>
         (\<forall>e. res = Inl e \<longrightarrow>
              Upsert \<notin> set (map step_of evs) \<and> Publish \<notin> set (map step_of evs) \<and>
              rows' = rows)"
  using assms
proof (cases rule: putResource_cases)
  case (failed e)
  then show ?thesis by auto
next
  case (executed dest tr)
  then show ?thesis by simp
qed

theorem putResource_order_witness:
  "putResource wallet [pending_row] alice_pays_bob =
     (Inr \<lparr>put_status = 200, put_body = body_after alice_pays_bob\<rparr>, [paid_row], paid_events) \<and>
   map step_of paid_events = [Prepare, Fulfill, Upsert, Publish] \<and>
   precedes Prepare Fulfill (map step_of paid_events) \<and>
   precedes Fulfill Upsert (map step_of paid_events) \<and>
   precedes Fulfill Publish (map step_of paid_events)"
  using putResource_order[OF alice_pays_pending] alice_pays_pending by simp

subsection \<open>C8: a page of the history\<close>




subsection \<open>C9: a failed insert in the receiver's request\<close>

text \<open>
  C9. When \<open>payment.create()\<close> throws in the receiver's request, the handler
  catches the exception: the request ends without an error, it sets neither status nor
  body, so the caller gets neither the payment parameters with the condition nor any
  detail of the failure, and the table is left as it was.
\<close>

theorem create_failure_swallowed:
  assumes "User_findOne users (params_username req) = Some u"
    and "createRequest env u (amount req) = Inr params"
    and "Payment_create rows (paymentObj req u params) = Inl e"
  shows "setup_receiver env users rows req =
           (Inr \<lparr>setup_status = None, setup_body = None\<rparr>, rows)"
  using assms by (simp add: setup_receiver_def)

theorem create_failure_swallowed_witness:
  "User_findOne [alice, bob] (params_username bob_requests) = Some bob \<and>
   createRequest wallet bob (amount bob_requests) =
     Inr \<lparr>condition = ''cc:0:3:C'', request_amount = Some ''1''\<rparr> \<and>
   Payment_create [paid_row]
     (paymentObj bob_requests bob \<lparr>condition = ''cc:0:3:C'', request_amount = Some ''1''\<rparr>) =
     Inl UniqueConstraintError \<and>
   setup_receiver wallet [alice, bob] [paid_row] bob_requests =
     (Inr \<lparr>setup_status = None, setup_body = None\<rparr>, [paid_row])"
proof -
  have found: "User_findOne [alice, bob] (params_username bob_requests) = Some bob"
    by (simp add: User_findOne_def bob_requests_def alice_def bob_def)
  have generated: "createRequest wallet bob (amount bob_requests) =
     Inr \<lparr>condition = ''cc:0:3:C'', request_amount = Some ''1''\<rparr>"
    by (simp add: wallet_def bob_requests_def)
  have rejected: "Payment_create [paid_row]
     (paymentObj bob_requests bob \<lparr>condition = ''cc:0:3:C'', request_amount = Some ''1''\<rparr>) =
     Inl UniqueConstraintError"
    by (simp add: create_iff conditions_def paid_row_def)
  from create_failure_swallowed[OF found generated rejected] found generated rejected
  show ?thesis by simp
qed

subsection \<open>C10: the id and the source user of an execution\<close>

text \<open>
  C10, as the code has it. The id of the request is checked against the UUID syntax
  and converted to lower case, and goes into the body object of the request. A row
  found under the executed condition keeps the id it had, which is not the id of the
  request. The \<open>source_user\<close> of the saved payment is the id of the session's
  user, and what the request body gives as \<open>source_user\<close> or as \<open>id\<close>
  changes nothing.
\<close>

theorem putResource_id_and_source_user:
  assumes "unique_conditions rows" and "putResource env rows req = (Inr resp, rows', evs)"
  shows "validateUriParameter (params_id req) = None \<and>
         body_id (put_body resp) = Some (toLowerCase (params_id req)) \<and>
         (\<exists>p c. evs = [LedgerPrepare, LedgerFulfill, RecordSave p,
                        SocketPayment (username (req_user req)) p] \<and>
                execution_condition p = Some c \<and>
                p \<in> set rows' \<and>
                source_user p = Some (user_id (req_user req)) \<and>
                (\<forall>i r. Payment_findOne rows c = Some (i, r) \<longrightarrow>
                       rows' = rows[i := p] \<and> payment_id p = payment_id r)) \<and>
         (\<forall>x y. putResource env rows
                   (req\<lparr>request_body := (request_body req)\<lparr>body_id := x, body_source_user := y\<rparr>\<rparr>) =
                 putResource env rows req)"
proof -
  have ignored: "putResource env rows
                   (req\<lparr>request_body := (request_body req)\<lparr>body_id := x, body_source_user := y\<rparr>\<rparr>) =
                 putResource env rows req" for x y
    by (simp add: putResource_def Let_def split: option.split sum.split prod.split)
  from assms(2) show ?thesis
  proof (cases rule: putResource_cases)
    case (failed e)
    then show ?thesis by simp
  next
    case (executed dest tr)
    let ?c = "executionCondition tr"
    let ?p = "stored_payment rows req dest tr"
    have eq: "rows' = (case Payment_findOne rows ?c of
                         None \<Rightarrow> rows @ [?p]
                       | Some (i, r) \<Rightarrow> rows[i := ?p])"
      using executed(5) upsert_rows[OF assms(1), of ?p ?c] by simp
    have mem: "?p \<in> set rows'"
    proof (cases "Payment_findOne rows ?c")
      case None
      then show ?thesis using eq by simp
    next
      case (Some a)
      obtain i r where a: "a = (i, r)" by (cases a)
      then have "i < length rows" using findOne_Some[of rows ?c i r] Some by simp
      then show ?thesis using eq Some a by (simp add: set_update_memI)
    qed
    have kept: "rows' = rows[i := ?p] \<and> payment_id ?p = payment_id r"
      if "Payment_findOne rows ?c = Some (i, r)" for i r
      using that eq
      by (simp add: stored_payment_def setDataExternal_def executed_fields_def
          new_Payment_def merge_field_def)
    have "evs = [LedgerPrepare, LedgerFulfill, RecordSave ?p,
                 SocketPayment (username (req_user req)) ?p] \<and>
          execution_condition ?p = Some ?c \<and> ?p \<in> set rows' \<and>
          source_user ?p = Some (user_id (req_user req)) \<and>
          (\<forall>i r. Payment_findOne rows ?c = Some (i, r) \<longrightarrow>
                 rows' = rows[i := ?p] \<and> payment_id ?p = payment_id r)"
      using executed(6) mem kept by simp
    then have "\<exists>p c. evs = [LedgerPrepare, LedgerFulfill, RecordSave p,
                        SocketPayment (username (req_user req)) p] \<and>
                execution_condition p = Some c \<and>
                p \<in> set rows' \<and>
                source_user p = Some (user_id (req_user req)) \<and>
                (\<forall>i r. Payment_findOne rows c = Some (i, r) \<longrightarrow>
                       rows' = rows[i := p] \<and> payment_id p = payment_id r)"
      by blast
    moreover have "body_id (put_body resp) = Some (toLowerCase (params_id req))"
      using executed(4) by (simp add: body_after_def)
    ultimately show ?thesis using executed(1) ignored by blast
  qed
qed

theorem putResource_id_and_source_user_witness:
  "unique_conditions [pending_row] \<and>
   putResource wallet [pending_row] alice_pays_bob =
     (Inr \<lparr>put_status = 200, put_body = body_after alice_pays_bob\<rparr>, [paid_row], paid_events) \<and>
   body_source_user (request_body alice_pays_bob) = Some 7 \<and>
   body_id (body_after alice_pays_bob) = Some ''9efa70ec-08b9-11e6-b512-3e1d05defe78'' \<and>
   source_user paid_row = Some 1 \<and>
   payment_id paid_row = payment_id pending_row"
proof -
  from putResource_id_and_source_user[OF unique_pending alice_pays_pending]
  have "body_id (put_body \<lparr>put_status = 200, put_body = body_after alice_pays_bob\<rparr>) =
          Some (toLowerCase (params_id alice_pays_bob))"
    by blast
  moreover have "toLowerCase (params_id alice_pays_bob) = ''9efa70ec-08b9-11e6-b512-3e1d05defe78''"
    by (simp add: alice_pays_bob_def toLowerCase_def)
  moreover have "body_source_user (request_body alice_pays_bob) = Some 7"
    by (simp add: alice_pays_bob_def)
  moreover have "source_user paid_row = Some 1" "payment_id paid_row = payment_id pending_row"
    by (simp_all add: paid_row_def pending_row_def)
  ultimately show ?thesis using unique_pending alice_pays_pending by simp
qed

text \<open>
  The claim as stated fails for the id: the row alice's execution finds has an id of
  its own and keeps it; the lower-cased id of the request is not the id stored.
\<close>

theorem stored_id_not_request_id:
  "map payment_id (fst (snd (putResource wallet [identified_row] alice_pays_bob))) =
     [Some ''e1d3c588-807c-4d4f-b25c-61842b5ead6d''] \<and>
   toLowerCase (params_id alice_pays_bob) = ''9efa70ec-08b9-11e6-b512-3e1d05defe78''"
  by (simp add: identified_row_def wallet_defs handler_defs)

end
